theory Spec2Isabelle
  imports Main
begin

section \<open>Types used by NotificationChannel.service.tsx\<close>

text \<open>
  The channel imports its enums and message types from \<^verbatim>\<open>api.types\<close>, \<^verbatim>\<open>service.types\<close> and
  the PatternFly library. Enums are datatypes with the member names of the source; a message
  payload (\<^verbatim>\<open>any\<close> in the source) is a JSON value.
\<close>

datatype json =
    JNull
  | JBool bool
  | JNum int
  | JStr string
  | JArr "json list"
  | JObj "(string \<times> json) list"

datatype SessionState = NO_USER_SESSION | CREATING_USER_SESSION | USER_SESSION

datatype AuthMethod = BASIC | BEARER | NONE

datatype CloseStatus = LOGGED_OUT | PROTOCOL_FAILURE | INTERNAL_ERROR | UNKNOWN

datatype AlertVariant = success | danger | warning | info | custom

text \<open>\<^verbatim>\<open>ReadyState\<close>: \<^verbatim>\<open>{ ready: boolean; code?: CloseStatus }\<close>.\<close>

record ReadyState =
  ready :: bool
  code :: "CloseStatus option"

text \<open>\<^verbatim>\<open>NotificationMessage\<close>: only \<^verbatim>\<open>meta.category\<close> and \<^verbatim>\<open>message\<close> are read by the channel.\<close>

record NotificationMessage =
  meta_category :: string
  message :: json

text \<open>
  A value of the \<^verbatim>\<open>messageKeys\<close> table. The constructor tests \<^verbatim>\<open>value.body\<close> and
  \<^verbatim>\<open>value.variant\<close> for presence, so both are optional; \<^verbatim>\<open>hidden\<close> is passed on as it is.
\<close>

record NotificationMessageMapper =
  title :: string
  body :: "(NotificationMessage \<Rightarrow> string) option"
  variant :: "AlertVariant option"
  hidden :: "bool option"

text \<open>The argument object of \<^verbatim>\<open>NotificationService.notify\<close>.\<close>

record Notification =
  n_title :: string
  n_message :: json
  n_category :: "string option"
  n_variant :: AlertVariant
  n_hidden :: "bool option"

text \<open>The element of the \<^verbatim>\<open>combineLatest\<close> stream: url, token, auth method, session state, timer.\<close>

record UpstreamTuple =
  url :: string
  token :: string
  authMethod :: AuthMethod
  sessionState :: SessionState
  tick :: nat

text \<open>A JavaScript \<^verbatim>\<open>Error\<close> as \<^verbatim>\<open>logError\<close> reads it.\<close>

record Error =
  err_message :: string
  err_stack :: "string option"

section \<open>What the channel imports and does not define\<close>

text \<open>
  The numeric value of each \<^verbatim>\<open>CloseStatus\<close> member, the \<^verbatim>\<open>messageKeys\<close> table (a JavaScript
  \<^verbatim>\<open>Map\<close>, in insertion order), the \<^verbatim>\<open>NotificationCategory\<close> enum object (member name to value)
  and \<^verbatim>\<open>JSON.stringify\<close> on strings are declared outside the file; they are parameters.
\<close>

record Imports =
  CloseStatus_value :: "CloseStatus \<Rightarrow> int"
  messageKeys :: "(string \<times> NotificationMessageMapper) list"
  NotificationCategory :: "string \<Rightarrow> string option"
  JSON_stringify :: "string \<Rightarrow> string"

text \<open>
  Modelled from the spec: the enum member \<^verbatim>\<open>NotificationCategory.WsClientActivity\<close>, declared in
  \<^verbatim>\<open>api.types\<close>; the spec names the category \<^verbatim>\<open>"WsClientActivity"\<close>.
\<close>

definition WsClientActivity :: string where
  "WsClientActivity = ''WsClientActivity''"

section \<open>Effects and state\<close>

text \<open>The three \<^verbatim>\<open>NotificationService\<close> methods the channel calls by name.\<close>

datatype notifications_fn = fn_info | fn_danger | fn_warning

text \<open>
  Every call the channel makes on a collaborator, in the order of the calls. A WebSocketSubject
  is known by the number of its creation.
\<close>

datatype effect =
    WsCreate nat string "string option"
  | WsSubscribe nat
  | WsSend nat string
  | WsComplete nat
  | ReadyNext ReadyState
  | SetSessionState SessionState
  | Notify Notification
  | NotificationsCall notifications_fn string "string option" "string option" "bool option"
  | Delivered nat NotificationMessage
  | ConsoleError string

text \<open>
  An observer of the \<^verbatim>\<open>_messages\<close> subject: the handler the constructor subscribes for one
  \<^verbatim>\<open>messageKeys\<close> entry, the fallback handler, or an outside observer of \<^verbatim>\<open>messages(category)\<close>.
\<close>

datatype observer =
    KeyObserver string NotificationMessageMapper
  | FallbackObserver
  | OutsideObserver nat string

text \<open>
  The fields of the object (\<^verbatim>\<open>ws\<close>, \<^verbatim>\<open>_messages\<close>, \<^verbatim>\<open>_ready\<close>), the session state held by the
  login service, the value remembered by \<^verbatim>\<open>distinctUntilChanged\<close>, and the effects so far.
\<close>

record Channel =
  ws :: "nat option"
  ws_count :: nat
  ready_subject :: ReadyState
  messages_observers :: "observer list"
  login_sessionState :: SessionState
  distinct_last :: "UpstreamTuple option"
  effects :: "effect list"

definition emit :: "effect list \<Rightarrow> Channel \<Rightarrow> Channel" where
  "emit es st = st\<lparr>effects := effects st @ es\<rparr>"

text \<open>\<^verbatim>\<open>this._ready.next(r)\<close>\<close>

definition ready_next :: "ReadyState \<Rightarrow> Channel \<Rightarrow> Channel" where
  "ready_next r st = emit [ReadyNext r] (st\<lparr>ready_subject := r\<rparr>)"

text \<open>\<^verbatim>\<open>this.login.setSessionState(s)\<close>: the write-back to the login service.\<close>

definition setSessionState :: "SessionState \<Rightarrow> Channel \<Rightarrow> Channel" where
  "setSessionState s st = emit [SetSessionState s] (st\<lparr>login_sessionState := s\<rparr>)"

section \<open>The observers of a connection\<close>

text \<open>\<^verbatim>\<open>openObserver.next\<close>\<close>

definition openObserver :: "Channel \<Rightarrow> Channel" where
  "openObserver st =
     setSessionState USER_SESSION (ready_next \<lparr>ready = True, code = None\<rparr> st)"

text \<open>
  \<^verbatim>\<open>closeObserver.next\<close>: the \<^verbatim>\<open>switch\<close> on \<^verbatim>\<open>evt.code\<close> picks the reason code, the detail
  message, the notification method and the session state, in the order of its cases.
\<close>

definition close_switch ::
  "Imports \<Rightarrow> int \<Rightarrow> CloseStatus \<times> string option \<times> notifications_fn \<times> SessionState" where
  "close_switch im evt_code =
     (if evt_code = CloseStatus_value im LOGGED_OUT then
        (LOGGED_OUT, Some ''Logout success'', fn_info, NO_USER_SESSION)
      else if evt_code = CloseStatus_value im PROTOCOL_FAILURE then
        (PROTOCOL_FAILURE, Some ''Authentication failed'', fn_danger, NO_USER_SESSION)
      else if evt_code = CloseStatus_value im INTERNAL_ERROR then
        (INTERNAL_ERROR, Some ''Internal server error'', fn_danger, CREATING_USER_SESSION)
      else
        (UNKNOWN, None, fn_info, CREATING_USER_SESSION))"

definition closeObserver :: "Imports \<Rightarrow> int \<Rightarrow> Channel \<Rightarrow> Channel" where
  "closeObserver im evt_code st =
     (case close_switch im evt_code of (c, msg, fn, s) \<Rightarrow>
        emit [NotificationsCall fn ''WebSocket connection lost'' msg (Some WsClientActivity)
                (Some (fn = fn_info))]
          (setSessionState s (ready_next \<lparr>ready = False, code = Some c\<rparr> st)))"

section \<open>Opening a connection\<close>

text \<open>\<^verbatim>\<open>if (this.ws) { this.ws.complete(); }\<close>, also \<^verbatim>\<open>this.ws?.complete()\<close> of the logout handler.\<close>

definition ws_complete :: "Channel \<Rightarrow> Channel" where
  "ws_complete st = (case ws st of None \<Rightarrow> st | Some i \<Rightarrow> emit [WsComplete i] st)"

text \<open>\<^verbatim>\<open>this.ws = webSocket({url, protocol, ...})\<close>: a new subject, held by \<^verbatim>\<open>this.ws\<close>.\<close>

definition webSocket :: "string \<Rightarrow> string option \<Rightarrow> Channel \<Rightarrow> Channel" where
  "webSocket u p st =
     emit [WsCreate (ws_count st) u p] (st\<lparr>ws := Some (ws_count st), ws_count := Suc (ws_count st)\<rparr>)"

definition ws_subscribe :: "Channel \<Rightarrow> Channel" where
  "ws_subscribe st = (case ws st of None \<Rightarrow> st | Some i \<Rightarrow> emit [WsSubscribe i] st)"

definition ws_next :: "string \<Rightarrow> Channel \<Rightarrow> Channel" where
  "ws_next m st = (case ws st of None \<Rightarrow> st | Some i \<Rightarrow> emit [WsSend i m] st)"

text \<open>The subprotocol chosen from the auth method and the token.\<close>

definition subprotocol :: "AuthMethod \<Rightarrow> string \<Rightarrow> string option" where
  "subprotocol a t =
     (if a = BEARER then Some (''base64url.bearer.authorization.cryostat.'' @ t)
      else if a = BASIC then Some (''basic.authorization.cryostat.'' @ t)
      else None)"

text \<open>
  The \<^verbatim>\<open>next\<close> callback subscribed to the upstream stream (the spec's \<^verbatim>\<open>reconcile\<close>): return
  early unless the session is being created, complete the connection held, create the new one,
  subscribe to it and send the \<^verbatim>\<open>connect\<close> frame.
\<close>

definition reconcile :: "UpstreamTuple \<Rightarrow> Channel \<Rightarrow> Channel" where
  "reconcile parts st =
     (if sessionState parts \<noteq> CREATING_USER_SESSION then st
      else ws_next ''connect''
             (ws_subscribe
               (webSocket (url parts) (subprotocol (authMethod parts) (token parts))
                 (ws_complete st))))"

text \<open>
  \<^verbatim>\<open>distinctUntilChanged(_.isEqual)\<close> in front of the callback: a tuple deeply equal to the last
  one let through is dropped.
\<close>

definition distinctUntilChanged :: "UpstreamTuple \<Rightarrow> Channel \<Rightarrow> Channel" where
  "distinctUntilChanged parts st =
     (if distinct_last st = Some parts then st
      else reconcile parts (st\<lparr>distinct_last := Some parts\<rparr>))"

section \<open>Distributing messages\<close>

text \<open>\<^verbatim>\<open>messageKeys.has(category)\<close>\<close>

definition messageKeys_has :: "Imports \<Rightarrow> string \<Rightarrow> bool" where
  "messageKeys_has im c = (c \<in> set (map fst (messageKeys im)))"

text \<open>
  \<^verbatim>\<open>messageKeys.forEach\<close> of the constructor: an entry without body or variant subscribes
  nothing.
\<close>

fun key_observers :: "(string \<times> NotificationMessageMapper) list \<Rightarrow> observer list" where
  "key_observers [] = []"
| "key_observers ((key, v) # kvs) =
     (if body v = None \<or> variant v = None then key_observers kvs
      else KeyObserver key v # key_observers kvs)"

text \<open>What one observer does with a message of the \<^verbatim>\<open>_messages\<close> subject.\<close>

fun observer_next :: "Imports \<Rightarrow> NotificationMessage \<Rightarrow> observer \<Rightarrow> effect list" where
  "observer_next im msg (KeyObserver key v) =
     (if meta_category msg = key then
        (case body v of
           None \<Rightarrow> []
         | Some b \<Rightarrow>
             (case variant v of
                None \<Rightarrow> []
              | Some a \<Rightarrow>
                  [Notify \<lparr>n_title = title v, n_message = JStr (b msg), n_category = Some key,
                           n_variant = a, n_hidden = hidden v\<rparr>]))
      else [])"
| "observer_next im msg FallbackObserver =
     (if \<not> messageKeys_has im (meta_category msg) then
        [Notify \<lparr>n_title = meta_category msg, n_message = message msg,
                 n_category = NotificationCategory im (meta_category msg),
                 n_variant = success, n_hidden = None\<rparr>]
      else [])"
| "observer_next im msg (OutsideObserver i c) =
     (if meta_category msg = c then [Delivered i msg] else [])"

text \<open>\<^verbatim>\<open>this._messages.next(v)\<close>: every observer in the order of subscription.\<close>

definition messages_next :: "Imports \<Rightarrow> NotificationMessage \<Rightarrow> Channel \<Rightarrow> Channel" where
  "messages_next im msg st =
     emit (concat (map (observer_next im msg) (messages_observers st))) st"

text \<open>\<^verbatim>\<open>messages(category).subscribe(...)\<close> by an outside observer \<open>i\<close>.\<close>

definition messages_subscribe :: "nat \<Rightarrow> string \<Rightarrow> Channel \<Rightarrow> Channel" where
  "messages_subscribe i c st =
     st\<lparr>messages_observers := messages_observers st @ [OutsideObserver i c]\<rparr>"

text \<open>\<^verbatim>\<open>isReady()\<close>: a behaviour subject replays its current value to a new subscriber.\<close>

definition isReady :: "Channel \<Rightarrow> ReadyState" where
  "isReady st = ready_subject st"

definition logError :: "Imports \<Rightarrow> string \<Rightarrow> Error \<Rightarrow> Channel \<Rightarrow> Channel" where
  "logError im t err st =
     emit ([ConsoleError (t @ '':'' @ err_message err)]
           @ (case err_stack err of
                None \<Rightarrow> []
              | Some s \<Rightarrow> if s = [] then [] else [ConsoleError s])
           @ [NotificationsCall fn_danger t (Some (JSON_stringify im (err_message err))) None None])
       st"

section \<open>The channel as a whole\<close>

text \<open>
  The object after the constructor has run and before any stream has emitted; \<open>s0\<close> is the
  session state the login service holds then.
\<close>

definition constructor :: "Imports \<Rightarrow> SessionState \<Rightarrow> Channel" where
  "constructor im s0 =
     \<lparr>ws = None, ws_count = 0, ready_subject = \<lparr>ready = False, code = None\<rparr>,
      messages_observers = key_observers (messageKeys im) @ [FallbackObserver],
      login_sessionState = s0, distinct_last = None, effects = []\<rparr>"

text \<open>What the event loop hands to the channel, one callback at a time.\<close>

datatype event =
    UpstreamNext UpstreamTuple
  | UpstreamError Error
  | WsOpen
  | WsClose int
  | WsMessage NotificationMessage
  | WsError Error
  | LoggedOutNext
  | LoggedOutError Error
  | MessagesSubscribe nat string

fun step :: "Imports \<Rightarrow> Channel \<Rightarrow> event \<Rightarrow> Channel" where
  "step im st (UpstreamNext parts) = distinctUntilChanged parts st"
| "step im st (UpstreamError err) = logError im ''Notifications URL configuration'' err st"
| "step im st WsOpen = openObserver st"
| "step im st (WsClose evt_code) = closeObserver im evt_code st"
| "step im st (WsMessage v) = messages_next im v st"
| "step im st (WsError err) = logError im ''WebSocket error'' err st"
| "step im st LoggedOutNext = ws_complete st"
| "step im st (LoggedOutError err) = logError im ''Notifications URL configuration'' err st"
| "step im st (MessagesSubscribe i c) = messages_subscribe i c st"

definition run :: "Imports \<Rightarrow> Channel \<Rightarrow> event list \<Rightarrow> Channel" where
  "run im st evs = foldl (step im) st evs"

section \<open>Reading the effects\<close>

text \<open>
  The connections created and not yet completed, after a sequence of effects; and whether
  there was at most one of them after every effect of the sequence.
\<close>

fun live_step :: "nat list \<Rightarrow> effect \<Rightarrow> nat list" where
  "live_step l (WsCreate i u p) = i # l"
| "live_step l (WsComplete i) = removeAll i l"
| "live_step l e = l"

definition live :: "effect list \<Rightarrow> nat list" where
  "live es = foldl live_step [] es"

fun single_from :: "nat list \<Rightarrow> effect list \<Rightarrow> bool" where
  "single_from l [] = (length l \<le> 1)"
| "single_from l (e # es) = (length l \<le> 1 \<and> single_from (live_step l e) es)"

fun is_WsCreate :: "effect \<Rightarrow> bool" where
  "is_WsCreate (WsCreate i u p) = True"
| "is_WsCreate e = False"

definition attempts :: "Channel \<Rightarrow> nat" where
  "attempts st = length (filter is_WsCreate (effects st))"

text \<open>
  The state of a channel that has never held two connections at once: at most one connection
  was live after every effect so far, and a live connection is the one \<^verbatim>\<open>this.ws\<close> holds.
\<close>

definition single_connection :: "Channel \<Rightarrow> bool" where
  "single_connection st =
     (single_from [] (effects st) \<and> length (live (effects st)) \<le> 1 \<and>
      set (live (effects st)) \<subseteq> set_option (ws st))"

text \<open>The outside observers of \<^verbatim>\<open>messages(category)\<close> subscribed by a sequence of events.\<close>

fun outside_of :: "event list \<Rightarrow> (nat \<times> string) list" where
  "outside_of [] = []"
| "outside_of (MessagesSubscribe i c # evs) = (i, c) # outside_of evs"
| "outside_of (e # evs) = outside_of evs"

text \<open>The deliveries of a message to the outside observers of its category.\<close>

definition deliveries :: "NotificationMessage \<Rightarrow> (nat \<times> string) list \<Rightarrow> effect list" where
  "deliveries msg outs =
     map (\<lambda>(i, c). Delivered i msg) (filter (\<lambda>(i, c). c = meta_category msg) outs)"

section \<open>ReportService: caching the report of an active recording\<close>

text \<open>\<^verbatim>\<open>Base64.encode\<close> of the js-base64 library, on the bytes of the string.\<close>

definition base64_alphabet :: string where
  "base64_alphabet = ''ABCDEFGHIJKLMNOPQRSTUVWXYZabcdefghijklmnopqrstuvwxyz0123456789+/''"

definition base64_digit :: "nat \<Rightarrow> char" where
  "base64_digit n = base64_alphabet ! (n mod 64)"

fun base64_bytes :: "nat list \<Rightarrow> string" where
  "base64_bytes [] = []"
| "base64_bytes [a] =
     [base64_digit (a div 4), base64_digit ((a mod 4) * 16), CHR ''='', CHR ''='']"
| "base64_bytes [a, b] =
     [base64_digit (a div 4), base64_digit ((a mod 4) * 16 + b div 16),
      base64_digit ((b mod 16) * 4), CHR ''='']"
| "base64_bytes (a # b # c # bs) =
     [base64_digit (a div 4), base64_digit ((a mod 4) * 16 + b div 16),
      base64_digit ((b mod 16) * 4 + c div 64), base64_digit (c mod 64)] @ base64_bytes bs"

definition Base64_encode :: "string \<Rightarrow> string" where
  "Base64_encode s = base64_bytes (map of_char s)"

record Recording =
  rec_name :: string
  reportUrl :: string

text \<open>
  \<^verbatim>\<open>isActiveRecording\<close> and \<^verbatim>\<open>isQuotaExceededError\<close> come from \<^verbatim>\<open>api.utils\<close>, and whether
  \<^verbatim>\<open>sessionStorage.setItem\<close> or \<^verbatim>\<open>sessionStorage.removeItem\<close> throws (a full storage, a
  browser that refuses access to the storage) is the browser's decision: they are parameters.
  A call that throws leaves the storage as it was.
\<close>

record ReportImports =
  isActiveRecording :: "Recording \<Rightarrow> bool"
  isQuotaExceededError :: "Error \<Rightarrow> bool"
  setItem :: "(string \<rightharpoonup> string) \<Rightarrow> string \<Rightarrow> string \<Rightarrow> Error + (string \<rightharpoonup> string)"
  removeItem :: "(string \<rightharpoonup> string) \<Rightarrow> string \<Rightarrow> Error + (string \<rightharpoonup> string)"

record ReportService =
  sessionStorage :: "string \<rightharpoonup> string"
  notifications :: "effect list"

definition key :: "Recording \<Rightarrow> string" where
  "key recording = Base64_encode (''report.'' @ reportUrl recording)"

definition analysisKey :: "string \<Rightarrow> string" where
  "analysisKey connectUrl = Base64_encode (connectUrl @ ''.latestReport'')"

definition analysisKeyTimestamp :: "string \<Rightarrow> string" where
  "analysisKeyTimestamp connectUrl = Base64_encode (connectUrl @ ''.latestReportTimestamp'')"

text \<open>
  \<^verbatim>\<open>sessionStorage.removeItem(k)\<close> as the service calls it, outside any \<^verbatim>\<open>try\<close>: an error
  thrown leaves the method, \<open>Inl\<close>, with the service as it is then.
\<close>

definition sessionStorage_removeItem ::
  "ReportImports \<Rightarrow> string \<Rightarrow> ReportService \<Rightarrow> (Error \<times> ReportService) + ReportService" where
  "sessionStorage_removeItem ri k rs =
     (case removeItem ri (sessionStorage rs) k of
        Inl err \<Rightarrow> Inl (err, rs)
      | Inr s \<Rightarrow> Inr (rs\<lparr>sessionStorage := s\<rparr>))"

definition delete ::
  "ReportImports \<Rightarrow> Recording \<Rightarrow> ReportService \<Rightarrow> (Error \<times> ReportService) + ReportService" where
  "delete ri recording rs = sessionStorage_removeItem ri (key recording) rs"

definition deleteCachedAnalysisReport ::
  "ReportImports \<Rightarrow> string \<Rightarrow> ReportService \<Rightarrow> (Error \<times> ReportService) + ReportService" where
  "deleteCachedAnalysisReport ri connectUrl rs =
     (case sessionStorage_removeItem ri (analysisKey connectUrl) rs of
        Inl e \<Rightarrow> Inl e
      | Inr rs1 \<Rightarrow> sessionStorage_removeItem ri (analysisKeyTimestamp connectUrl) rs1)"

text \<open>\<^verbatim>\<open>this.notifications.warning(title, message)\<close>\<close>

definition notifications_warning :: "string \<Rightarrow> string \<Rightarrow> ReportService \<Rightarrow> ReportService" where
  "notifications_warning t m rs =
     rs\<lparr>notifications := notifications rs @ [NotificationsCall fn_warning t (Some m) None None]\<rparr>"

text \<open>
  The \<^verbatim>\<open>catch\<close> block of the \<^verbatim>\<open>next\<close> handler of \<^verbatim>\<open>tap\<close> in \<^verbatim>\<open>reportJson\<close>: the warning,
  then \<^verbatim>\<open>this.delete(recording)\<close>, whose error nothing catches.
\<close>

definition tap_catch ::
  "ReportImports \<Rightarrow> Recording \<Rightarrow> Error \<Rightarrow> ReportService
     \<Rightarrow> (Error \<times> ReportService) + ReportService" where
  "tap_catch ri recording err rs =
     (if isQuotaExceededError ri err then
        delete ri recording
          (notifications_warning ''Report Caching Failed'' (err_message err) rs)
      else
        delete ri recording
          (notifications_warning ''Report Caching Failed'' ''localStorage is not available'' rs))"

text \<open>
  The \<^verbatim>\<open>next\<close> handler of \<^verbatim>\<open>tap\<close> in \<^verbatim>\<open>reportJson\<close>; \<open>report_json\<close> is
  \<^verbatim>\<open>JSON.stringify(report)\<close> and \<open>now\<close> is \<^verbatim>\<open>Date.now().toString()\<close>. The two writes are
  inside the \<^verbatim>\<open>try\<close>; an error that leaves the handler is \<open>Inl\<close>.
\<close>

definition tap_next ::
  "ReportImports \<Rightarrow> Recording \<Rightarrow> string \<Rightarrow> string \<Rightarrow> string \<Rightarrow> ReportService
     \<Rightarrow> (Error \<times> ReportService) + ReportService" where
  "tap_next ri recording connectUrl report_json now rs =
     (if isActiveRecording ri recording then
        (case setItem ri (sessionStorage rs) (analysisKey connectUrl) report_json of
           Inl err \<Rightarrow> tap_catch ri recording err rs
         | Inr s1 \<Rightarrow>
             (case setItem ri s1 (analysisKeyTimestamp connectUrl) now of
                Inl err \<Rightarrow> tap_catch ri recording err (rs\<lparr>sessionStorage := s1\<rparr>)
              | Inr s2 \<Rightarrow> Inr (rs\<lparr>sessionStorage := s2\<rparr>)))
      else Inr rs)"

section \<open>Instances for evaluation\<close>

text \<open>
  A table with the spec's \<^verbatim>\<open>WsClientActivity\<close> entry and one entry without a body transform;
  close codes 1000, 1002 and 1011.
\<close>

definition example_body :: "NotificationMessage \<Rightarrow> string" where
  "example_body msg = ''Client activity''"

definition example_imports :: Imports where
  "example_imports =
     \<lparr>CloseStatus_value =
        (\<lambda>c. case c of LOGGED_OUT \<Rightarrow> 1000 | PROTOCOL_FAILURE \<Rightarrow> 1002
                | INTERNAL_ERROR \<Rightarrow> 1011 | UNKNOWN \<Rightarrow> - 1),
      messageKeys =
        [(''WsClientActivity'',
            \<lparr>title = ''WebSocket Client Activity'', body = Some example_body,
             variant = Some info, hidden = Some True\<rparr>),
         (''GrafanaConfiguration'',
            \<lparr>title = ''Grafana Configuration'', body = None, variant = Some info,
             hidden = None\<rparr>)],
      NotificationCategory =
        (\<lambda>n. if n = ''WsClientActivity'' \<or> n = ''GrafanaConfiguration'' then Some n else None),
      JSON_stringify = (\<lambda>s. [CHR 0x22] @ s @ [CHR 0x22])\<rparr>"

definition example_tuple :: UpstreamTuple where
  "example_tuple =
     \<lparr>url = ''wss://x'', token = ''abc'', authMethod = BEARER,
      sessionState = CREATING_USER_SESSION, tick = 0\<rparr>"

definition example_message :: "string \<Rightarrow> NotificationMessage" where
  "example_message c = \<lparr>meta_category = c, message = JObj [(''addr'', JStr ''connected'')]\<rparr>"

text \<open>A browser whose storage is full: every \<^verbatim>\<open>setItem\<close> throws, \<^verbatim>\<open>removeItem\<close> works.\<close>

definition full_storage :: ReportImports where
  "full_storage =
     \<lparr>isActiveRecording = (\<lambda>r. True),
      isQuotaExceededError = (\<lambda>e. True),
      setItem = (\<lambda>s k v. Inl \<lparr>err_message = ''QuotaExceededError'', err_stack = None\<rparr>),
      removeItem = (\<lambda>s k. Inr (s(k := None)))\<rparr>"

text \<open>A browser that refuses access to the storage: every call on it throws.\<close>

definition unavailable_storage :: ReportImports where
  "unavailable_storage =
     \<lparr>isActiveRecording = (\<lambda>r. True),
      isQuotaExceededError = (\<lambda>e. False),
      setItem = (\<lambda>s k v. Inl \<lparr>err_message = ''SecurityError'', err_stack = None\<rparr>),
      removeItem = (\<lambda>s k. Inl \<lparr>err_message = ''SecurityError'', err_stack = None\<rparr>)\<rparr>"

definition example_recording :: Recording where
  "example_recording = \<lparr>rec_name = ''r'', reportUrl = ''http://h/r''\<rparr>"

definition stale_service :: ReportService where
  "stale_service =
     \<lparr>sessionStorage = [analysisKey ''c'' \<mapsto> ''[]'', analysisKeyTimestamp ''c'' \<mapsto> ''1''],
      notifications = []\<rparr>"

section \<open>Properties\<close>

text \<open>
  Every handler runs to its end before the next event is taken, as on the single-threaded
  event loop. The login service is outside the file: a write-back by \<^verbatim>\<open>setSessionState\<close> is
  recorded, and the tuple the upstream stream emits in answer is a later \<open>UpstreamNext\<close> event.
\<close>

lemmas handler_defs =
  emit_def ready_next_def setSessionState_def openObserver_def closeObserver_def
  ws_complete_def webSocket_def ws_subscribe_def ws_next_def reconcile_def
  distinctUntilChanged_def messages_next_def messages_subscribe_def logError_def

subsection \<open>Close classification\<close>

text \<open>
  C1. A close event is classified by its code, the cases taken in the order of the
  \<^verbatim>\<open>switch\<close>. The logged-out code gives the readiness \<open>{ready:false, LOGGED_OUT}\<close>, the
  write-back \<open>NO_USER_SESSION\<close> and an info notification with detail \<open>Logout success\<close>; the
  protocol-failure code gives \<open>{ready:false, PROTOCOL_FAILURE}\<close>, \<open>NO_USER_SESSION\<close> and a
  danger notification with detail \<open>Authentication failed\<close>; the internal-error code gives
  \<open>{ready:false, INTERNAL_ERROR}\<close>, \<open>CREATING_USER_SESSION\<close> and a danger notification with
  detail \<open>Internal server error\<close>; any other code gives \<open>{ready:false, UNKNOWN}\<close>,
  \<open>CREATING_USER_SESSION\<close> and an info notification with no detail.
\<close>

theorem closeObserver_classification:
  "closeObserver im evt_code st = st' \<Longrightarrow>
   (evt_code = CloseStatus_value im LOGGED_OUT \<longrightarrow>
      ready_subject st' = \<lparr>ready = False, code = Some LOGGED_OUT\<rparr> \<and>
      login_sessionState st' = NO_USER_SESSION \<and>
      effects st' = effects st @
        [ReadyNext \<lparr>ready = False, code = Some LOGGED_OUT\<rparr>,
         SetSessionState NO_USER_SESSION,
         NotificationsCall fn_info ''WebSocket connection lost'' (Some ''Logout success'')
           (Some WsClientActivity) (Some True)]) \<and>
   (evt_code \<noteq> CloseStatus_value im LOGGED_OUT \<and>
    evt_code = CloseStatus_value im PROTOCOL_FAILURE \<longrightarrow>
      ready_subject st' = \<lparr>ready = False, code = Some PROTOCOL_FAILURE\<rparr> \<and>
      login_sessionState st' = NO_USER_SESSION \<and>
      effects st' = effects st @
        [ReadyNext \<lparr>ready = False, code = Some PROTOCOL_FAILURE\<rparr>,
         SetSessionState NO_USER_SESSION,
         NotificationsCall fn_danger ''WebSocket connection lost'' (Some ''Authentication failed'')
           (Some WsClientActivity) (Some False)]) \<and>
   (evt_code \<noteq> CloseStatus_value im LOGGED_OUT \<and>
    evt_code \<noteq> CloseStatus_value im PROTOCOL_FAILURE \<and>
    evt_code = CloseStatus_value im INTERNAL_ERROR \<longrightarrow>
      ready_subject st' = \<lparr>ready = False, code = Some INTERNAL_ERROR\<rparr> \<and>
      login_sessionState st' = CREATING_USER_SESSION \<and>
      effects st' = effects st @
        [ReadyNext \<lparr>ready = False, code = Some INTERNAL_ERROR\<rparr>,
         SetSessionState CREATING_USER_SESSION,
         NotificationsCall fn_danger ''WebSocket connection lost'' (Some ''Internal server error'')
           (Some WsClientActivity) (Some False)]) \<and>
   (evt_code \<noteq> CloseStatus_value im LOGGED_OUT \<and>
    evt_code \<noteq> CloseStatus_value im PROTOCOL_FAILURE \<and>
    evt_code \<noteq> CloseStatus_value im INTERNAL_ERROR \<longrightarrow>
      ready_subject st' = \<lparr>ready = False, code = Some UNKNOWN\<rparr> \<and>
      login_sessionState st' = CREATING_USER_SESSION \<and>
      effects st' = effects st @
        [ReadyNext \<lparr>ready = False, code = Some UNKNOWN\<rparr>,
         SetSessionState CREATING_USER_SESSION,
         NotificationsCall fn_info ''WebSocket connection lost'' None
           (Some WsClientActivity) (Some True)])"
  by (auto simp: closeObserver_def close_switch_def emit_def setSessionState_def ready_next_def)

text \<open>The protocol-failure code 1002 on a fresh channel.\<close>

theorem closeObserver_classification_witness:
  "ready_subject (closeObserver example_imports 1002 (constructor example_imports USER_SESSION))
     = \<lparr>ready = False, code = Some PROTOCOL_FAILURE\<rparr> \<and>
   login_sessionState (closeObserver example_imports 1002 (constructor example_imports USER_SESSION))
     = NO_USER_SESSION \<and>
   effects (closeObserver example_imports 1002 (constructor example_imports USER_SESSION)) =
     [ReadyNext \<lparr>ready = False, code = Some PROTOCOL_FAILURE\<rparr>,
      SetSessionState NO_USER_SESSION,
      NotificationsCall fn_danger ''WebSocket connection lost'' (Some ''Authentication failed'')
        (Some WsClientActivity) (Some False)]"
  using closeObserver_classification [of example_imports 1002 "constructor example_imports USER_SESSION", OF refl]
  by (simp add: example_imports_def constructor_def)

subsection \<open>At most one connection\<close>

lemma live_append: "live (xs @ ys) = foldl live_step (live xs) ys"
  by (simp add: live_def)

lemma live_fold: "foldl live_step [] es = live es"
  by (simp add: live_def)

lemma single_from_length: "single_from l es \<Longrightarrow> length l \<le> 1"
  by (cases es) simp_all

lemma single_from_append:
  "single_from l (xs @ ys) = (single_from l xs \<and> single_from (foldl live_step l xs) ys)"
  by (induction xs arbitrary: l) (auto dest: single_from_length)

lemma single_from_take:
  "single_from l es \<Longrightarrow> length (foldl live_step l (take n es)) \<le> 1"
proof (induction es arbitrary: l n)
  case Nil
  then show ?case by simp
next
  case (Cons e es)
  then show ?case by (cases n) simp_all
qed

lemma passive_foldl:
  "(\<And>e l. e \<in> set es \<Longrightarrow> live_step l e = l) \<Longrightarrow> foldl live_step l es = l"
  by (induction es arbitrary: l) simp_all

lemma passive_single:
  "(\<And>e l. e \<in> set es \<Longrightarrow> live_step l e = l) \<Longrightarrow> single_from l es = (length l \<le> 1)"
  by (induction es arbitrary: l) auto

lemma single_passive:
  assumes "single_connection st"
    and "effects st' = effects st @ es" and "ws st' = ws st"
    and "\<And>e l. e \<in> set es \<Longrightarrow> live_step l e = l"
  shows "single_connection st'"
  using assms(1) assms(2) assms(3) passive_foldl [of es, OF assms(4)]
    passive_single [of es, OF assms(4)]
  by (simp add: single_connection_def live_append single_from_append live_fold)

lemma held_removed:
  assumes "set l \<subseteq> set_option w" and "w = Some i"
  shows "removeAll i l = []"
  using assms by (induction l) auto

lemma none_live:
  assumes "set l \<subseteq> set_option w" and "w = None"
  shows "l = []"
  using assms by simp

lemma single_ws_complete: "single_connection st \<Longrightarrow> single_connection (ws_complete st)"
proof (cases "ws st")
  case None
  assume "single_connection st"
  with None show ?thesis by (simp add: ws_complete_def)
next
  case (Some i)
  assume s: "single_connection st"
  then have "removeAll i (live (effects st)) = []"
    using Some held_removed [of "live (effects st)" "ws st" i]
    by (simp add: single_connection_def)
  with s Some show ?thesis
    by (simp add: single_connection_def ws_complete_def emit_def live_append single_from_append
        live_fold)
qed

lemma live_ws_complete:
  "single_connection st \<Longrightarrow> live (effects (ws_complete st)) = []"
proof (cases "ws st")
  case None
  assume "single_connection st"
  with None show ?thesis
    using none_live [of "live (effects st)" "ws st"]
    by (simp add: ws_complete_def single_connection_def)
next
  case (Some i)
  assume s: "single_connection st"
  then have "removeAll i (live (effects st)) = []"
    using Some held_removed [of "live (effects st)" "ws st" i]
    by (simp add: single_connection_def)
  with Some show ?thesis
    by (simp add: ws_complete_def emit_def live_append)
qed

lemma single_open:
  assumes "single_connection st" and "live (effects st) = []"
  shows "single_connection (ws_next m (ws_subscribe (webSocket u p st)))"
  using assms
  by (simp add: single_connection_def webSocket_def ws_subscribe_def ws_next_def emit_def
      live_append single_from_append live_fold)

lemma single_reconcile: "single_connection st \<Longrightarrow> single_connection (reconcile parts st)"
  using single_open [OF single_ws_complete live_ws_complete, of st]
  by (simp add: reconcile_def)

lemma single_distinct:
  assumes "single_connection st"
  shows "single_connection (distinctUntilChanged parts st)"
proof -
  from assms have "single_connection (st\<lparr>distinct_last := Some parts\<rparr>)"
    by (simp add: single_connection_def)
  then show ?thesis
    using assms by (simp add: distinctUntilChanged_def single_reconcile)
qed

lemma observer_passive: "e \<in> set (observer_next im msg ob) \<Longrightarrow> live_step l e = l"
proof (cases ob)
  case (KeyObserver k v)
  assume "e \<in> set (observer_next im msg ob)"
  with KeyObserver show ?thesis
    by (cases "body v"; cases "variant v"; cases "meta_category msg = k") auto
next
  case FallbackObserver
  assume "e \<in> set (observer_next im msg ob)"
  with FallbackObserver show ?thesis
    by (cases "messageKeys_has im (meta_category msg)") auto
next
  case (OutsideObserver i c)
  assume "e \<in> set (observer_next im msg ob)"
  with OutsideObserver show ?thesis
    by (cases "meta_category msg = c") auto
qed

lemma single_emit:
  assumes "single_connection st" and "\<And>e l. e \<in> set es \<Longrightarrow> live_step l e = l"
  shows "single_connection (emit es st)"
proof (rule single_passive [of st "emit es st" es])
  show "single_connection st" by (rule assms(1))
  show "effects (emit es st) = effects st @ es" by (simp add: emit_def)
  show "ws (emit es st) = ws st" by (simp add: emit_def)
  show "\<And>e l. e \<in> set es \<Longrightarrow> live_step l e = l" by (rule assms(2))
qed

lemma single_ready_next: "single_connection st \<Longrightarrow> single_connection (ready_next r st)"
  unfolding ready_next_def
  by (rule single_emit) (simp_all add: single_connection_def)

lemma single_setSessionState:
  "single_connection st \<Longrightarrow> single_connection (setSessionState s st)"
  unfolding setSessionState_def
  by (rule single_emit) (simp_all add: single_connection_def)

lemma single_openObserver: "single_connection st \<Longrightarrow> single_connection (openObserver st)"
  by (simp add: openObserver_def single_ready_next single_setSessionState)

lemma single_closeObserver:
  assumes "single_connection st"
  shows "single_connection (closeObserver im c st)"
proof -
  obtain k msg fn s where sw: "close_switch im c = (k, msg, fn, s)"
    by (cases "close_switch im c") auto
  have "single_connection (setSessionState s (ready_next \<lparr>ready = False, code = Some k\<rparr> st))"
    using assms by (simp add: single_ready_next single_setSessionState)
  then show ?thesis
    unfolding closeObserver_def sw prod.case
    by (rule single_emit) simp
qed

lemma single_logError: "single_connection st \<Longrightarrow> single_connection (logError im t err st)"
  unfolding logError_def
  by (rule single_emit) (auto split: option.splits if_splits)

lemma single_messages_next:
  "single_connection st \<Longrightarrow> single_connection (messages_next im msg st)"
  unfolding messages_next_def
  by (rule single_emit) (auto dest: observer_passive)

lemma single_step:
  assumes "single_connection st"
  shows "single_connection (step im st e)"
proof (cases e)
  case (UpstreamNext parts)
  with assms show ?thesis by (simp add: single_distinct)
next
  case (UpstreamError err)
  with assms show ?thesis by (simp add: single_logError)
next
  case WsOpen
  with assms show ?thesis by (simp add: single_openObserver)
next
  case (WsClose c)
  with assms show ?thesis by (simp add: single_closeObserver)
next
  case (WsMessage msg)
  with assms show ?thesis by (simp add: single_messages_next)
next
  case (WsError err)
  with assms show ?thesis by (simp add: single_logError)
next
  case LoggedOutNext
  with assms show ?thesis by (simp add: single_ws_complete)
next
  case (LoggedOutError err)
  with assms show ?thesis by (simp add: single_logError)
next
  case (MessagesSubscribe i c)
  with assms show ?thesis by (simp add: messages_subscribe_def single_connection_def)
qed

lemma single_run: "single_connection st \<Longrightarrow> single_connection (run im st evs)"
  unfolding run_def
  by (induction evs arbitrary: st) (simp_all add: single_step)

lemma single_constructor: "single_connection (constructor im s0)"
  by (simp add: single_connection_def constructor_def live_def)

text \<open>
  C2. Whatever the events, after every effect of the channel at most one connection has been
  created and not completed; and when a tuple opens a connection while \<^verbatim>\<open>this.ws\<close> holds one,
  the connection held is completed before the new one is created.
\<close>

theorem at_most_one_connection:
  "(\<forall>n. length (live (take n (effects (run im (constructor im s0) evs)))) \<le> 1) \<and>
   (ws st = Some i \<and> sessionState parts = CREATING_USER_SESSION \<longrightarrow>
      (\<exists>p. effects (reconcile parts st) =
             effects st @
               [WsComplete i, WsCreate (ws_count st) (url parts) p,
                WsSubscribe (ws_count st), WsSend (ws_count st) ''connect'']))"
proof -
  have sf: "single_from [] (effects (run im (constructor im s0) evs))"
    using single_run [OF single_constructor, of im im s0 evs]
    by (simp add: single_connection_def)
  have a: "\<forall>n. length (live (take n (effects (run im (constructor im s0) evs)))) \<le> 1"
  proof (rule allI)
    fix n
    show "length (live (take n (effects (run im (constructor im s0) evs)))) \<le> 1"
      using single_from_take [OF sf, of n] by (simp add: live_def)
  qed
  have b: "ws st = Some i \<and> sessionState parts = CREATING_USER_SESSION \<longrightarrow>
      (\<exists>p. effects (reconcile parts st) =
             effects st @
               [WsComplete i, WsCreate (ws_count st) (url parts) p,
                WsSubscribe (ws_count st), WsSend (ws_count st) ''connect''])"
    by (simp add: handler_defs)
  from a b show ?thesis by blast
qed

text \<open>Two tuples that differ in the timer value: the first connection is completed, then the second is created.\<close>

theorem at_most_one_connection_witness:
  "length (live (take 5 (effects (run example_imports (constructor example_imports CREATING_USER_SESSION)
      [UpstreamNext example_tuple, UpstreamNext (example_tuple\<lparr>tick := 1\<rparr>)])))) \<le> 1 \<and>
   effects (reconcile (example_tuple\<lparr>tick := 1\<rparr>)
      (run example_imports (constructor example_imports CREATING_USER_SESSION)
         [UpstreamNext example_tuple])) =
     [WsCreate 0 ''wss://x'' (Some ''base64url.bearer.authorization.cryostat.abc''),
      WsSubscribe 0, WsSend 0 ''connect'', WsComplete 0,
      WsCreate 1 ''wss://x'' (Some ''base64url.bearer.authorization.cryostat.abc''),
      WsSubscribe 1, WsSend 1 ''connect'']"
  using at_most_one_connection [of example_imports CREATING_USER_SESSION
      "[UpstreamNext example_tuple, UpstreamNext (example_tuple\<lparr>tick := 1\<rparr>)]"
      "run example_imports (constructor example_imports CREATING_USER_SESSION)
         [UpstreamNext example_tuple]" 0 "example_tuple\<lparr>tick := 1\<rparr>"]
  by (simp add: run_def handler_defs constructor_def example_tuple_def subprotocol_def live_def)

subsection \<open>Opening only while the session is being created\<close>

lemma observer_no_create: "filter is_WsCreate (observer_next im msg ob) = []"
proof (cases ob)
  case (KeyObserver k v)
  then show ?thesis
    by (cases "body v"; cases "variant v"; cases "meta_category msg = k") auto
next
  case FallbackObserver
  then show ?thesis
    by (cases "messageKeys_has im (meta_category msg)") auto
next
  case (OutsideObserver i c)
  then show ?thesis
    by (cases "meta_category msg = c") auto
qed

lemma observers_no_create:
  "filter is_WsCreate (concat (map (observer_next im msg) obs)) = []"
  by (induction obs) (simp_all add: observer_no_create)

lemma attempts_step_other:
  "(\<And>parts. e \<noteq> UpstreamNext parts) \<Longrightarrow> attempts (step im st e) = attempts st"
proof (cases e)
  case (WsMessage msg)
  then show ?thesis
    by (simp add: attempts_def messages_next_def emit_def observers_no_create)
next
  case (WsClose c)
  then show ?thesis
    by (simp add: attempts_def handler_defs split: prod.splits)
qed (auto simp: attempts_def handler_defs split: option.splits)

lemma attempts_step_upstream:
  "sessionState parts \<noteq> CREATING_USER_SESSION \<Longrightarrow>
   attempts (step im st (UpstreamNext parts)) = attempts st"
  by (simp add: attempts_def distinctUntilChanged_def reconcile_def)

text \<open>
  C3. For a tuple whose session state is not \<open>CREATING_USER_SESSION\<close> the callback changes
  nothing: no connection is created or completed, and neither the readiness nor the session
  state is written (behind \<^verbatim>\<open>distinctUntilChanged\<close>, only the remembered tuple changes). For
  a tuple whose session state is \<open>CREATING_USER_SESSION\<close> the callback creates one connection;
  and an event that creates a connection is such a tuple.
\<close>

theorem reconcile_only_when_creating:
  "(sessionState parts \<noteq> CREATING_USER_SESSION \<longrightarrow>
      reconcile parts st = st \<and>
      distinctUntilChanged parts st = st\<lparr>distinct_last := Some parts\<rparr>) \<and>
   (sessionState parts = CREATING_USER_SESSION \<longrightarrow>
      attempts (reconcile parts st) = Suc (attempts st)) \<and>
   (attempts (step im st e) \<noteq> attempts st \<longrightarrow>
      (\<exists>p. e = UpstreamNext p \<and> sessionState p = CREATING_USER_SESSION))"
proof -
  have a: "sessionState parts \<noteq> CREATING_USER_SESSION \<longrightarrow>
      reconcile parts st = st \<and>
      distinctUntilChanged parts st = st\<lparr>distinct_last := Some parts\<rparr>"
    by (auto simp: distinctUntilChanged_def reconcile_def)
  have b: "sessionState parts = CREATING_USER_SESSION \<longrightarrow>
      attempts (reconcile parts st) = Suc (attempts st)"
    by (simp add: handler_defs attempts_def split: option.splits)
  have c: "attempts (step im st e) \<noteq> attempts st \<longrightarrow>
      (\<exists>p. e = UpstreamNext p \<and> sessionState p = CREATING_USER_SESSION)"
    using attempts_step_other [of e im st] attempts_step_upstream [of _ im st]
    by (cases e) auto
  from a b c show ?thesis by blast
qed

text \<open>
  An active session leaves a fresh channel as it is; a session being created opens one
  connection.
\<close>

theorem reconcile_only_when_creating_witness:
  "reconcile (example_tuple\<lparr>sessionState := USER_SESSION\<rparr>) (constructor example_imports USER_SESSION)
     = constructor example_imports USER_SESSION \<and>
   attempts (reconcile example_tuple (constructor example_imports CREATING_USER_SESSION)) = 1 \<and>
   attempts (step example_imports (constructor example_imports CREATING_USER_SESSION)
      (UpstreamNext example_tuple)) = 1 \<and>
   attempts (constructor example_imports CREATING_USER_SESSION) = 0"
  using reconcile_only_when_creating [of "example_tuple\<lparr>sessionState := USER_SESSION\<rparr>"
                  "constructor example_imports USER_SESSION"]
        reconcile_only_when_creating [of example_tuple "constructor example_imports CREATING_USER_SESSION"
                  example_imports "UpstreamNext example_tuple"]
  by (simp add: example_tuple_def attempts_def constructor_def handler_defs)

text \<open>
  C4. For a tuple with session state \<open>CREATING_USER_SESSION\<close> and token \<open>t\<close>, the connection
  is created with the subprotocol \<open>base64url.bearer.authorization.cryostat.t\<close> for \<open>BEARER\<close>,
  \<open>basic.authorization.cryostat.t\<close> for \<open>BASIC\<close>, and none otherwise; when it opens, the
  readiness becomes \<open>{ready:true}\<close> and the session state is written back as \<open>USER_SESSION\<close>.
\<close>

theorem subprotocol_and_open:
  "sessionState parts = CREATING_USER_SESSION \<Longrightarrow>
   (\<exists>p. effects (reconcile parts st) =
          effects (ws_complete st) @
            [WsCreate (ws_count st) (url parts) p, WsSubscribe (ws_count st),
             WsSend (ws_count st) ''connect''] \<and>
        (authMethod parts = BEARER \<longrightarrow>
           p = Some (''base64url.bearer.authorization.cryostat.'' @ token parts)) \<and>
        (authMethod parts = BASIC \<longrightarrow>
           p = Some (''basic.authorization.cryostat.'' @ token parts)) \<and>
        (authMethod parts \<noteq> BEARER \<and> authMethod parts \<noteq> BASIC \<longrightarrow> p = None)) \<and>
   ready_subject (openObserver (reconcile parts st)) = \<lparr>ready = True, code = None\<rparr> \<and>
   login_sessionState (openObserver (reconcile parts st)) = USER_SESSION \<and>
   effects (openObserver (reconcile parts st)) =
     effects (reconcile parts st) @
       [ReadyNext \<lparr>ready = True, code = None\<rparr>, SetSessionState USER_SESSION]"
  by (auto simp: handler_defs subprotocol_def split: option.splits)

text \<open>The scenario of the specification: a bearer token \<open>abc\<close> at \<open>wss://x\<close>.\<close>

theorem subprotocol_and_open_witness:
  "effects (reconcile example_tuple (constructor example_imports CREATING_USER_SESSION)) =
     [WsCreate 0 ''wss://x'' (Some ''base64url.bearer.authorization.cryostat.abc''),
      WsSubscribe 0, WsSend 0 ''connect''] \<and>
   ready_subject (openObserver (reconcile example_tuple
      (constructor example_imports CREATING_USER_SESSION))) = \<lparr>ready = True, code = None\<rparr> \<and>
   login_sessionState (openObserver (reconcile example_tuple
      (constructor example_imports CREATING_USER_SESSION))) = USER_SESSION"
  using subprotocol_and_open [of example_tuple "constructor example_imports CREATING_USER_SESSION"]
  by (simp add: example_tuple_def constructor_def ws_complete_def)

subsection \<open>Suppressing a repeated tuple\<close>

lemma distinct_last_reconcile: "distinct_last (reconcile parts st) = distinct_last st"
  by (simp add: handler_defs split: option.splits)

lemma distinct_last_after: "distinct_last (distinctUntilChanged parts st) = Some parts"
  by (simp add: distinctUntilChanged_def distinct_last_reconcile)

lemma attempts_reconcile: "attempts (reconcile parts st) \<le> Suc (attempts st)"
  by (simp add: handler_defs attempts_def split: option.splits)

lemma attempts_distinct: "attempts (distinctUntilChanged parts st) \<le> Suc (attempts st)"
  using attempts_reconcile [of parts "st\<lparr>distinct_last := Some parts\<rparr>"]
  by (simp add: distinctUntilChanged_def attempts_def)

text \<open>
  C7. A tuple deeply equal to the one before it is dropped: submitting a tuple twice in a row
  leaves the channel as submitting it once does, and creates at most one connection.
\<close>

theorem duplicate_tuple_suppressed:
  "distinctUntilChanged parts (distinctUntilChanged parts st) = distinctUntilChanged parts st \<and>
   run im st [UpstreamNext parts, UpstreamNext parts] = run im st [UpstreamNext parts] \<and>
   attempts (run im st [UpstreamNext parts, UpstreamNext parts]) \<le> Suc (attempts st)"
proof -
  have idem: "distinctUntilChanged parts (distinctUntilChanged parts st)
                = distinctUntilChanged parts st"
    using distinct_last_after [of parts st]
    by (subst distinctUntilChanged_def) simp
  show ?thesis
    using idem attempts_distinct [of parts st] by (simp add: run_def)
qed

text \<open>The tuple of the scenario submitted twice to a fresh channel: one connection.\<close>

theorem duplicate_tuple_suppressed_witness:
  "run example_imports (constructor example_imports CREATING_USER_SESSION)
      [UpstreamNext example_tuple, UpstreamNext example_tuple] =
   run example_imports (constructor example_imports CREATING_USER_SESSION)
      [UpstreamNext example_tuple] \<and>
   attempts (run example_imports (constructor example_imports CREATING_USER_SESSION)
      [UpstreamNext example_tuple, UpstreamNext example_tuple]) = 1"
  using duplicate_tuple_suppressed [of example_tuple
      "constructor example_imports CREATING_USER_SESSION" example_imports]
  by (simp add: run_def handler_defs constructor_def example_tuple_def attempts_def)

subsection \<open>Readiness\<close>

lemma ready_step_other:
  "e \<noteq> WsOpen \<Longrightarrow> (\<forall>c. e \<noteq> WsClose c) \<Longrightarrow> ready_subject (step im st e) = ready_subject st"
  by (cases e) (auto simp: handler_defs split: option.splits)

lemma ready_step_close: "\<not> ready (ready_subject (step im st (WsClose c)))"
  by (simp add: handler_defs split: prod.splits)

text \<open>
  C8. An event that turns the readiness from not ready to ready is an open event; and a close
  event first publishes \<open>{ready:false}\<close> with a reason code, then writes the session state
  back, and only then raises the \<open>WebSocket connection lost\<close> notification.
\<close>

theorem ready_only_on_open_and_first_on_close:
  "(ready (ready_subject (step im st e)) \<and> \<not> ready (ready_subject st) \<longrightarrow> e = WsOpen) \<and>
   (\<exists>c s f m h.
      effects (step im st (WsClose evt_code)) =
        effects st @
          [ReadyNext \<lparr>ready = False, code = Some c\<rparr>, SetSessionState s,
           NotificationsCall f ''WebSocket connection lost'' m (Some WsClientActivity) h] \<and>
      ready_subject (step im st (WsClose evt_code)) = \<lparr>ready = False, code = Some c\<rparr>)"
proof -
  have a: "ready (ready_subject (step im st e)) \<and> \<not> ready (ready_subject st) \<longrightarrow> e = WsOpen"
    using ready_step_other [of e im st] ready_step_close [of im st] by (cases e) auto
  have b: "\<exists>c s f m h.
      effects (step im st (WsClose evt_code)) =
        effects st @
          [ReadyNext \<lparr>ready = False, code = Some c\<rparr>, SetSessionState s,
           NotificationsCall f ''WebSocket connection lost'' m (Some WsClientActivity) h] \<and>
      ready_subject (step im st (WsClose evt_code)) = \<lparr>ready = False, code = Some c\<rparr>"
    by (simp add: handler_defs split: prod.splits)
  from a b show ?thesis by blast
qed

text \<open>An open event on a fresh channel, and a close with the internal-error code 1011.\<close>

theorem ready_only_on_open_and_first_on_close_witness:
  "ready (ready_subject (step example_imports (constructor example_imports CREATING_USER_SESSION) WsOpen)) \<and>
   \<not> ready (ready_subject (constructor example_imports CREATING_USER_SESSION)) \<and>
   effects (step example_imports (constructor example_imports USER_SESSION) (WsClose 1011)) =
     [ReadyNext \<lparr>ready = False, code = Some INTERNAL_ERROR\<rparr>,
      SetSessionState CREATING_USER_SESSION,
      NotificationsCall fn_danger ''WebSocket connection lost'' (Some ''Internal server error'')
        (Some WsClientActivity) (Some False)]"
  using ready_only_on_open_and_first_on_close [of example_imports "constructor example_imports CREATING_USER_SESSION" WsOpen 1011]
  by (simp add: handler_defs constructor_def example_imports_def close_switch_def)

lemma ready_run_other:
  "\<forall>e\<in>set evs. e \<noteq> WsOpen \<and> (\<forall>c. e \<noteq> WsClose c) \<Longrightarrow>
   ready_subject (run im st evs) = ready_subject st"
  unfolding run_def
  by (induction evs arbitrary: st) (simp_all add: ready_step_other)

text \<open>
  C10. As long as no connection has opened or closed, the readiness held by the channel, which
  is the value \<^verbatim>\<open>isReady()\<close> replays to a new subscriber, is \<open>{ready:false}\<close> with no reason
  code.
\<close>

theorem initial_readiness:
  "\<forall>e\<in>set evs. e \<noteq> WsOpen \<and> (\<forall>c. e \<noteq> WsClose c) \<Longrightarrow>
   ready_subject (run im (constructor im s0) evs) = \<lparr>ready = False, code = None\<rparr> \<and>
   isReady (run im (constructor im s0) evs) = \<lparr>ready = False, code = None\<rparr>"
  using ready_run_other [of evs im "constructor im s0"]
  by (simp add: isReady_def constructor_def)

text \<open>After a tuple, a subscription and a logout, but no open or close.\<close>

theorem initial_readiness_witness:
  "isReady (run example_imports (constructor example_imports NO_USER_SESSION)
      [UpstreamNext example_tuple, MessagesSubscribe 0 ''WsClientActivity'', LoggedOutNext])
     = \<lparr>ready = False, code = None\<rparr>"
  using initial_readiness [of "[UpstreamNext example_tuple, MessagesSubscribe 0 ''WsClientActivity'', LoggedOutNext]"
                    example_imports NO_USER_SESSION]
  by simp

subsection \<open>Distribution of messages\<close>

lemma observers_step:
  "messages_observers (step im st e) =
     messages_observers st @ map (\<lambda>(i, c). OutsideObserver i c) (outside_of [e])"
  by (cases e) (auto simp: handler_defs split: option.splits prod.splits)

lemma outside_of_Cons: "outside_of (e # evs) = outside_of [e] @ outside_of evs"
  by (cases e) simp_all

lemma observers_run:
  "messages_observers (run im st evs) =
     messages_observers st @ map (\<lambda>(i, c). OutsideObserver i c) (outside_of evs)"
  unfolding run_def
proof (induction evs arbitrary: st)
  case Nil
  then show ?case by simp
next
  case (Cons e evs)
  show ?case
    using Cons.IH [of "step im st e"] observers_step [of im st e] outside_of_Cons [of e evs]
    by simp
qed

lemma outside_next:
  "concat (map (observer_next im msg \<circ> (\<lambda>(i, c). OutsideObserver i c)) outs) = deliveries msg outs"
  by (induction outs) (auto simp: deliveries_def)

lemma key_next_none:
  "meta_category msg \<notin> fst ` set kvs \<Longrightarrow>
   concat (map (observer_next im msg) (key_observers kvs)) = []"
  by (induction kvs rule: key_observers.induct) auto

lemma key_next_some:
  "distinct (map fst kvs) \<Longrightarrow> map_of kvs (meta_category msg) = Some v \<Longrightarrow>
   concat (map (observer_next im msg) (key_observers kvs)) =
     (case body v of
        None \<Rightarrow> []
      | Some b \<Rightarrow>
          (case variant v of
             None \<Rightarrow> []
           | Some a \<Rightarrow>
               [Notify \<lparr>n_title = title v, n_message = JStr (b msg),
                        n_category = Some (meta_category msg), n_variant = a,
                        n_hidden = hidden v\<rparr>]))"
proof (induction kvs)
  case Nil
  then show ?case by simp
next
  case (Cons kv kvs)
  obtain k w where kv: "kv = (k, w)" by (cases kv)
  show ?case
  proof (cases "k = meta_category msg")
    case True
    with Cons.prems kv have v: "w = v" and rest: "meta_category msg \<notin> fst ` set kvs"
      by auto
    from rest have "concat (map (observer_next im msg) (key_observers kvs)) = []"
      by (rule key_next_none)
    with True v kv show ?thesis
      by (auto split: option.splits)
  next
    case False
    with Cons.prems kv have d: "distinct (map fst kvs)"
      and m: "map_of kvs (meta_category msg) = Some v"
      by auto
    from False kv Cons.IH [OF d m] show ?thesis by auto
  qed
qed

lemma effects_message:
  "effects (messages_next im msg (run im (constructor im s0) evs)) =
     effects (run im (constructor im s0) evs) @
       concat (map (observer_next im msg) (key_observers (messageKeys im))) @
       observer_next im msg FallbackObserver @ deliveries msg (outside_of evs)"
  by (simp add: messages_next_def emit_def observers_run constructor_def outside_next)

text \<open>
  C5. The keys of the table being distinct, as those of a \<^verbatim>\<open>Map\<close> are, a message whose
  category is the key of an entry that has a body transform and a non-empty title raises
  exactly one notification for that entry, with the entry's title, the transform's output as
  message, the entry's configured severity (its variant) and its visibility (its hidden
  flag); no fallback notification is raised, and the message is delivered to every outside
  observer of its category.
\<close>

theorem registered_category_notification:
  assumes "distinct (map fst (messageKeys im))"
    and "map_of (messageKeys im) (meta_category msg) = Some v"
    and "body v = Some b" and "variant v = Some a" and "title v \<noteq> []"
  shows "effects (step im (run im (constructor im s0) evs) (WsMessage msg)) =
     effects (run im (constructor im s0) evs) @
       [Notify \<lparr>n_title = title v, n_message = JStr (b msg),
                n_category = Some (meta_category msg), n_variant = a, n_hidden = hidden v\<rparr>] @
       deliveries msg (outside_of evs)"
proof -
  from assms(2) have "meta_category msg \<in> fst ` set (messageKeys im)"
    by (metis map_of_eq_None_iff option.distinct(1))
  then have fb: "observer_next im msg FallbackObserver = []"
    by (simp add: messageKeys_has_def)
  show ?thesis
    using key_next_some [OF assms(1) assms(2), of im] assms(3) assms(4) fb
    by (simp add: effects_message)
qed

text \<open>A \<open>WsClientActivity\<close> message with one observer of that category and one of another.\<close>

theorem registered_category_notification_witness:
  "effects (step example_imports
      (run example_imports (constructor example_imports USER_SESSION)
         [MessagesSubscribe 7 ''WsClientActivity'', MessagesSubscribe 8 ''Other''])
      (WsMessage (example_message ''WsClientActivity''))) =
     [Notify \<lparr>n_title = ''WebSocket Client Activity'', n_message = JStr ''Client activity'',
              n_category = Some ''WsClientActivity'', n_variant = info, n_hidden = Some True\<rparr>,
      Delivered 7 (example_message ''WsClientActivity'')]"
  using registered_category_notification [of example_imports "example_message ''WsClientActivity''"
      "\<lparr>title = ''WebSocket Client Activity'', body = Some example_body,
             variant = Some info, hidden = Some True\<rparr>" example_body info USER_SESSION
      "[MessagesSubscribe 7 ''WsClientActivity'', MessagesSubscribe 8 ''Other'']"]
  by (simp add: example_imports_def example_message_def example_body_def deliveries_def
      run_def messages_subscribe_def constructor_def)

text \<open>
  C6. A message whose category is not a key of the table raises exactly one notification, the
  fallback one, with the category as title and the variant \<open>success\<close>, and is delivered to
  every outside observer of its category.
\<close>

theorem unknown_category_fallback:
  "\<not> messageKeys_has im (meta_category msg) \<Longrightarrow>
   effects (step im (run im (constructor im s0) evs) (WsMessage msg)) =
     effects (run im (constructor im s0) evs) @
       [Notify \<lparr>n_title = meta_category msg, n_message = message msg,
                n_category = NotificationCategory im (meta_category msg),
                n_variant = success, n_hidden = None\<rparr>] @
       deliveries msg (outside_of evs)"
  using key_next_none [of msg "messageKeys im" im]
  by (simp add: effects_message messageKeys_has_def)

text \<open>A message of the unregistered category \<open>Other\<close>.\<close>

theorem unknown_category_fallback_witness:
  "effects (step example_imports
      (run example_imports (constructor example_imports USER_SESSION)
         [MessagesSubscribe 7 ''WsClientActivity'', MessagesSubscribe 8 ''Other''])
      (WsMessage (example_message ''Other''))) =
     [Notify \<lparr>n_title = ''Other'', n_message = JObj [(''addr'', JStr ''connected'')],
              n_category = None, n_variant = success, n_hidden = None\<rparr>,
      Delivered 8 (example_message ''Other'')]"
  using unknown_category_fallback [of example_imports "example_message ''Other''" USER_SESSION
      "[MessagesSubscribe 7 ''WsClientActivity'', MessagesSubscribe 8 ''Other'']"]
  by (simp add: example_imports_def example_message_def deliveries_def messageKeys_has_def
      run_def messages_subscribe_def constructor_def)

subsection \<open>A failed write of the report cache\<close>

lemma key_example: "key example_recording = ''cmVwb3J0Lmh0dHA6Ly9oL3I=''"
  by (simp add: key_def example_recording_def Base64_encode_def base64_digit_def base64_alphabet_def)

lemma analysisKey_example: "analysisKey ''c'' = ''Yy5sYXRlc3RSZXBvcnQ=''"
  by (simp add: analysisKey_def Base64_encode_def base64_digit_def base64_alphabet_def)

lemma analysisKeyTimestamp_example: "analysisKeyTimestamp ''c'' = ''Yy5sYXRlc3RSZXBvcnRUaW1lc3RhbXA=''"
  by (simp add: analysisKeyTimestamp_def Base64_encode_def base64_digit_def base64_alphabet_def)

text \<open>The handler of a failed request removes the two entries of the analysis cache.\<close>

lemma deleteCachedAnalysisReport_removes:
  assumes "\<And>s k. removeItem ri s k = Inr (s(k := None))"
  shows "\<exists>rs'. deleteCachedAnalysisReport ri connectUrl rs = Inr rs' \<and>
           sessionStorage rs' (analysisKey connectUrl) = None \<and>
           sessionStorage rs' (analysisKeyTimestamp connectUrl) = None"
  by (simp add: deleteCachedAnalysisReport_def sessionStorage_removeItem_def assms)

text \<open>An error leaves the handler only from \<^verbatim>\<open>delete(recording)\<close> in the \<^verbatim>\<open>catch\<close> block.\<close>

lemma tap_next_returns:
  assumes "\<And>s k. \<exists>s'. removeItem ri s k = Inr s'"
  shows "\<exists>rs'. tap_next ri recording connectUrl j now rs = Inr rs'"
proof -
  have d: "\<exists>rs'. delete ri recording r = Inr rs'" for r
    using assms [of "sessionStorage r" "key recording"]
    by (auto simp: delete_def sessionStorage_removeItem_def)
  have c: "\<exists>rs'. tap_catch ri recording err r = Inr rs'" for err r
    by (simp add: tap_catch_def d)
  show ?thesis
    by (simp add: tap_next_def c split: sum.splits)
qed

text \<open>
  After a failed first write, with a storage that can still be read, the handler has warned
  and returned, and the entry under \<^verbatim>\<open>analysisKey(connectUrl)\<close> is what it was, unless it is
  also \<^verbatim>\<open>key(recording)\<close>.
\<close>

lemma failed_write_general:
  assumes "isActiveRecording ri recording"
    and "setItem ri (sessionStorage rs) (analysisKey connectUrl) j = Inl err"
    and "key recording \<noteq> analysisKey connectUrl"
    and "\<And>s k. removeItem ri s k = Inr (s(k := None))"
  shows "\<exists>rs'. tap_next ri recording connectUrl j now rs = Inr rs' \<and>
           sessionStorage rs' (analysisKey connectUrl) = sessionStorage rs (analysisKey connectUrl) \<and>
           length (notifications rs') = Suc (length (notifications rs))"
  using assms
  by (simp add: tap_next_def tap_catch_def delete_def sessionStorage_removeItem_def
      notifications_warning_def)

text \<open>
  With a storage that refuses every call, the write fails, the warning is raised, and the
  error of \<^verbatim>\<open>sessionStorage.removeItem\<close> in \<^verbatim>\<open>delete(recording)\<close> leaves the handler.
\<close>

lemma unavailable_storage_propagates:
  "tap_next unavailable_storage example_recording ''c'' ''[1]'' ''2'' stale_service =
     Inl (\<lparr>err_message = ''SecurityError'', err_stack = None\<rparr>,
          stale_service\<lparr>notifications :=
            [NotificationsCall fn_warning ''Report Caching Failed''
               (Some ''localStorage is not available'') None None]\<rparr>)"
  by (simp add: tap_next_def unavailable_storage_def tap_catch_def delete_def
      sessionStorage_removeItem_def notifications_warning_def stale_service_def)

text \<open>
  C9. With a full storage that holds an earlier report for \<open>c\<close>, the write fails, the error
  is caught and a warning is raised, but the entries under \<^verbatim>\<open>analysisKey\<close> and
  \<^verbatim>\<open>analysisKeyTimestamp\<close> stay: \<^verbatim>\<open>delete(recording)\<close> removes \<^verbatim>\<open>key(recording)\<close>, another key.
\<close>

theorem failed_write_leaves_entry:
  "\<exists>rs'. tap_next full_storage example_recording ''c'' ''[1]'' ''2'' stale_service = Inr rs' \<and>
         sessionStorage rs' (analysisKey ''c'') = Some ''[]'' \<and>
         sessionStorage rs' (analysisKeyTimestamp ''c'') = Some ''1'' \<and>
         sessionStorage stale_service (analysisKey ''c'') = Some ''[]'' \<and>
         notifications rs' =
           [NotificationsCall fn_warning ''Report Caching Failed'' (Some ''QuotaExceededError'')
              None None]"
  by (simp add: tap_next_def full_storage_def tap_catch_def delete_def
      sessionStorage_removeItem_def notifications_warning_def stale_service_def key_example
      analysisKey_example analysisKeyTimestamp_example)

end
